theory Spec2Isabelle
  imports Main "HOL-Library.List_Lexorder" "HOL-Library.Product_Lexorder"
begin

chapter \<open>The programs\<close>

section \<open>Python values shared by the scripts\<close>

text \<open>
  A Python \<open>str\<close> is a sequence of Unicode code points. It is modelled as a list of
  natural numbers, one per code point; \<open>lit\<close> turns an ASCII literal of the source into
  that representation.
\<close>

type_synonym pychar = nat
type_synonym pystr = "pychar list"

definition lit :: "string \<Rightarrow> pystr" where
  "lit s = map of_char s"

text \<open>\<open>str(n)\<close> for a Python \<open>int\<close>: decimal digits, most significant first, with a
  leading minus sign for negative numbers.\<close>

function dec_digits :: "nat \<Rightarrow> pystr" where
  "dec_digits n = (if n < 10 then [48 + n] else dec_digits (n div 10) @ [48 + n mod 10])"
  by pat_completeness auto
termination
  by (relation "measure (\<lambda>n. n)") auto

declare dec_digits.simps [simp del]

definition str_int :: "int \<Rightarrow> pystr" where
  "str_int i = (if i < 0 then 45 # dec_digits (nat (- i)) else dec_digits (nat i))"

section \<open>convertNumbers.py\<close>

definition HEX_DIGITS :: pystr where
  "HEX_DIGITS = lit ''0123456789ABCDEF''"

text \<open>The \<open>while n > 0\<close> loop of \<open>to_binary\<close>: \<open>bits.append(str(n % 2)); n //= 2\<close>.\<close>

function to_binary_loop :: "int \<Rightarrow> pystr list \<Rightarrow> pystr list" where
  "to_binary_loop n bits =
     (if n > 0 then to_binary_loop (n div 2) (bits @ [str_int (n mod 2)]) else bits)"
  by pat_completeness auto
termination
  by (relation "measure (\<lambda>(n, bits). nat n)") auto

declare to_binary_loop.simps [simp del]

definition to_binary :: "int \<Rightarrow> pystr" where
  "to_binary n =
     (if n = 0 then lit ''0''
      else let sign = (if n < 0 then lit ''-'' else lit '''');
               m = (if n < 0 then - n else n);
               bits = to_binary_loop m []
           in sign @ concat (rev bits))"

text \<open>The loop of \<open>to_hexadecimal\<close>: \<open>digits.append(HEX_DIGITS[n % 16]); n //= 16\<close>.
  The index \<open>n % 16\<close> lies in \<open>0..15\<close>, inside the sixteen characters of
  \<open>HEX_DIGITS\<close>, so the subscript never raises.\<close>

function to_hexadecimal_loop :: "int \<Rightarrow> pystr list \<Rightarrow> pystr list" where
  "to_hexadecimal_loop n digits =
     (if n > 0 then to_hexadecimal_loop (n div 16) (digits @ [[HEX_DIGITS ! nat (n mod 16)]])
      else digits)"
  by pat_completeness auto
termination
  by (relation "measure (\<lambda>(n, digits). nat n)") auto

declare to_hexadecimal_loop.simps [simp del]

definition to_hexadecimal :: "int \<Rightarrow> pystr" where
  "to_hexadecimal n =
     (if n = 0 then lit ''0''
      else let sign = (if n < 0 then lit ''-'' else lit '''');
               m = (if n < 0 then - n else n);
               digits = to_hexadecimal_loop m []
           in sign @ concat (rev digits))"

text \<open>
  Reading a numeral back, as the specification words it: an optional leading \<open>-\<close>, then
  at least one digit of the given alphabet, most significant first; the base is the size
  of the alphabet and the value of a digit is its position in the alphabet.
\<close>

fun digit_of :: "pystr \<Rightarrow> pychar \<Rightarrow> nat option" where
  "digit_of [] c = None"
| "digit_of (a # as) c = (if a = c then Some 0 else map_option Suc (digit_of as c))"

fun parse_digits :: "pystr \<Rightarrow> nat \<Rightarrow> pystr \<Rightarrow> nat option" where
  "parse_digits al acc [] = Some acc"
| "parse_digits al acc (c # cs) =
     (case digit_of al c of
        None \<Rightarrow> None
      | Some d \<Rightarrow> parse_digits al (acc * length al + d) cs)"

definition parse_numeral :: "pystr \<Rightarrow> pystr \<Rightarrow> int option" where
  "parse_numeral al s =
     (case s of
        [] \<Rightarrow> None
      | c # cs \<Rightarrow>
          if c = 45 then (if cs = [] then None
                          else map_option (\<lambda>m. - int m) (parse_digits al 0 cs))
          else map_option int (parse_digits al 0 s))"

section \<open>computeStatistics.py\<close>

text \<open>
  The exceptions of Python that the modelled code can raise. A function that can raise
  returns \<open>py_error + 'a\<close>, with \<open>Inl\<close> for the exception.
\<close>

datatype py_error = ValueError | TypeError | OverflowError | KeyError | UnicodeDecodeError

text \<open>
  The values are Python floats. \<open>mode\<close> only hashes, compares and orders them, so the
  model takes any linearly ordered type for them (the floats without NaN, whose
  comparisons are not an order).

  The dictionary \<open>freq\<close> keeps its keys in insertion order, which is the order
  \<open>freq.items()\<close> yields them in: it is an association list with distinct keys.
  \<open>freq_get\<close> is \<open>freq.get(v, 0)\<close> and \<open>freq_set\<close> is \<open>freq[v] = c\<close>, which
  keeps the place of a key already present and appends a new one.
\<close>

definition freq_get :: "('a \<times> nat) list \<Rightarrow> 'a \<Rightarrow> nat" where
  "freq_get freq v = (case map_of freq v of None \<Rightarrow> 0 | Some c \<Rightarrow> c)"

fun freq_set :: "('a \<times> nat) list \<Rightarrow> 'a \<Rightarrow> nat \<Rightarrow> ('a \<times> nat) list" where
  "freq_set [] v c = [(v, c)]"
| "freq_set ((k, d) # kvs) v c =
     (if k = v then (k, c) # kvs else (k, d) # freq_set kvs v c)"

text \<open>The first loop of \<open>mode\<close>: \<open>for v in vals: freq[v] = freq.get(v, 0) + 1\<close>.\<close>

fun count_values :: "'a list \<Rightarrow> ('a \<times> nat) list \<Rightarrow> ('a \<times> nat) list" where
  "count_values [] freq = freq"
| "count_values (v # vs) freq = count_values vs (freq_set freq v (freq_get freq v + 1))"





section \<open>wordCount.py\<close>

text \<open>
  The string methods of Python that \<open>read_tokens\<close> calls. \<open>py_isspace\<close> is the set of
  code points that \<open>str.isspace\<close>, \<open>str.strip()\<close> and \<open>str.split()\<close> treat as
  whitespace; \<open>is_linebreak\<close> is the set of line boundaries of \<open>str.splitlines()\<close>,
  which also takes \<open>\r\n\<close> as one boundary and yields no empty last line.
\<close>

definition py_isspace :: "pychar \<Rightarrow> bool" where
  "py_isspace c \<longleftrightarrow>
     (9 \<le> c \<and> c \<le> 13) \<or> (28 \<le> c \<and> c \<le> 32) \<or> c = 133 \<or> c = 160 \<or> c = 5760 \<or>
     (8192 \<le> c \<and> c \<le> 8202) \<or> c = 8232 \<or> c = 8233 \<or> c = 8239 \<or> c = 8287 \<or> c = 12288"

definition is_linebreak :: "pychar \<Rightarrow> bool" where
  "is_linebreak c \<longleftrightarrow>
     (10 \<le> c \<and> c \<le> 13) \<or> (28 \<le> c \<and> c \<le> 30) \<or> c = 133 \<or> c = 8232 \<or> c = 8233"

fun splitlines_from :: "pystr \<Rightarrow> pystr \<Rightarrow> pystr list" where
  "splitlines_from cur [] = (if cur = [] then [] else [cur])"
| "splitlines_from cur [c] =
     (if is_linebreak c then [cur] else [cur @ [c]])"
| "splitlines_from cur (c # d # ds) =
     (if c = 13 \<and> d = 10 then cur # splitlines_from [] ds
      else if is_linebreak c then cur # splitlines_from [] (d # ds)
      else splitlines_from (cur @ [c]) (d # ds))"

definition splitlines :: "pystr \<Rightarrow> pystr list" where
  "splitlines text = splitlines_from [] text"

definition py_strip :: "pystr \<Rightarrow> pystr" where
  "py_strip s = rev (dropWhile py_isspace (rev (dropWhile py_isspace s)))"

fun py_split_from :: "pystr \<Rightarrow> pystr \<Rightarrow> pystr list" where
  "py_split_from cur [] = (if cur = [] then [] else [cur])"
| "py_split_from cur (c # cs) =
     (if py_isspace c then (if cur = [] then py_split_from [] cs else cur # py_split_from [] cs)
      else py_split_from (cur @ [c]) cs)"

definition py_split :: "pystr \<Rightarrow> pystr list" where
  "py_split s = py_split_from [] s"

text \<open>
  \<open>read_tokens\<close>, from the text of the file on (a file that cannot be read raises
  before any token is looked at). The inner loop runs over the parts of one line, the
  outer loop over \<open>enumerate(text.splitlines(), start=1)\<close>; both carry the lists
  \<open>tokens\<close> and \<open>errors\<close>.
\<close>

definition empty_token_error :: "nat \<Rightarrow> pystr" where
  "empty_token_error line_no =
     lit ''Line '' @ str_int (int line_no) @ lit '': empty token encountered''"

fun read_parts :: "nat \<Rightarrow> pystr list \<Rightarrow> pystr list \<times> pystr list \<Rightarrow> pystr list \<times> pystr list" where
  "read_parts line_no [] (tokens, errors) = (tokens, errors)"
| "read_parts line_no (part # parts) (tokens, errors) =
     (if part \<noteq> [] then read_parts line_no parts (tokens @ [part], errors)
      else read_parts line_no parts (tokens, errors @ [empty_token_error line_no]))"

fun read_lines :: "nat \<Rightarrow> pystr list \<Rightarrow> pystr list \<times> pystr list \<Rightarrow> pystr list \<times> pystr list" where
  "read_lines line_no [] st = st"
| "read_lines line_no (raw # rest) st =
     (let raw' = py_strip raw
      in if raw' = [] then read_lines (line_no + 1) rest st
         else read_lines (line_no + 1) rest (read_parts line_no (py_split raw') st))"

definition read_tokens :: "pystr \<Rightarrow> pystr list \<times> pystr list" where
  "read_tokens text = read_lines 1 (splitlines text) ([], [])"

text \<open>\<open>count_frequencies\<close>: \<open>for tok in tokens: freq[tok] = freq.get(tok, 0) + 1\<close>, on
  a dictionary in insertion order.\<close>

definition count_frequencies :: "pystr list \<Rightarrow> (pystr \<times> nat) list" where
  "count_frequencies tokens = count_values tokens []"

text \<open>
  \<open>format_results\<close> of wordCount.py. Its loop runs over \<open>sorted(freq.keys())\<close> (strings
  compare by code point, a proper prefix first) and carries \<open>total\<close> (here \<open>tot\<close>) and \<open>lines\<close>;
  \<open>freq[word]\<close> raises \<open>KeyError\<close> for a missing key. \<open>elapsed\<close> is the text of
  \<open>f"{elapsed_seconds:.6f}"\<close>.
\<close>

fun wc_word_lines ::
  "(pystr \<times> nat) list \<Rightarrow> pystr list \<Rightarrow> nat \<Rightarrow> pystr list \<Rightarrow> py_error + nat \<times> pystr list" where
  "wc_word_lines freq [] tot lines = Inr (tot, lines)"
| "wc_word_lines freq (word # ws) tot lines =
     (case map_of freq word of
        None \<Rightarrow> Inl KeyError
      | Some count \<Rightarrow>
          wc_word_lines freq ws (tot + count)
            (lines @ [word @ lit [CHR 0x09] @ str_int (int count)]))"

definition wc_report_lines ::
  "(pystr \<times> nat) list \<Rightarrow> pystr list \<Rightarrow> pystr \<Rightarrow> py_error + pystr list" where
  "wc_report_lines freq errors elapsed =
     (case wc_word_lines freq (sort (map fst freq)) 0 [lit ''WORD'' @ lit [CHR 0x09] @ lit ''COUNT''] of
        Inl e \<Rightarrow> Inl e
      | Inr (tot, lines) \<Rightarrow>
          Inr (lines @ [lit '''', lit ''Grand Total'' @ lit [CHR 0x09] @ str_int (int tot)]
               @ (if errors \<noteq> [] then [lit '''', lit ''Errors (non-fatal):''] @ errors else [])
               @ [lit '''', lit ''Elapsed time: '' @ elapsed @ lit '' seconds'']))"

text \<open>\<open>"\n".join(lines) + "\n"\<close>.\<close>

fun join_lines :: "pystr list \<Rightarrow> pystr" where
  "join_lines [] = []"
| "join_lines [l] = l"
| "join_lines (l # m # ls) = l @ lit [CHR 0x0A] @ join_lines (m # ls)"

definition wc_format_results ::
  "(pystr \<times> nat) list \<Rightarrow> pystr list \<Rightarrow> pystr \<Rightarrow> py_error + pystr" where
  "wc_format_results freq errors elapsed =
     (case wc_report_lines freq errors elapsed of
        Inl e \<Rightarrow> Inl e
      | Inr lines \<Rightarrow> Inr (join_lines lines @ lit [CHR 0x0A]))"

section \<open>The hotel reservation system (models/)\<close>

text \<open>
  The three JSON files hold arrays of flat dictionaries. A dictionary of a fixed set of
  keys is a record; the field \<open>h_name\<close> is the key \<open>"name"\<close> of a hotel, \<open>c_name\<close>
  the key \<open>"name"\<close> of a customer, and so on. Identifiers are of any type \<open>'i\<close> with
  equality, names are strings and the room count is a Python \<open>int\<close>.
\<close>

record 'i hotel =
  h_hotel_id :: 'i
  h_name :: pystr
  h_location :: pystr
  h_rooms :: int
  h_reservations :: "'i list"

record 'i customer =
  c_customer_id :: 'i
  c_name :: pystr
  c_email :: pystr

record 'i reservation =
  r_reservation_id :: 'i
  r_customer_id :: 'i
  r_hotel_id :: 'i

text \<open>
  loadData.py. A file is absent, or holds text that is not JSON, or holds an array.
  \<open>load_data\<close> returns the empty list in the first two cases (after printing the
  error in the second). \<open>save_data\<close> overwrites the file with the array; the write
  is taken to succeed (on an \<open>IOError\<close> the source prints the error and goes on).
\<close>

datatype 'a json_file = Missing | Corrupt | Data "'a list"

fun load_data :: "'a json_file \<Rightarrow> 'a list" where
  "load_data Missing = []"
| "load_data Corrupt = []"
| "load_data (Data xs) = xs"

definition save_data :: "'a list \<Rightarrow> 'a json_file" where
  "save_data xs = Data xs"

record 'i store =
  hotels_file :: "'i hotel json_file"
  customers_file :: "'i customer json_file"
  reservations_file :: "'i reservation json_file"




text \<open>
  \<open>Hotel.modify_hotel\<close> and \<open>Customer.modify_customer\<close>. An argument is \<open>None\<close> (the
  default) or a value; \<open>if name:\<close> holds for a non-empty string, \<open>if rooms:\<close> for an
  integer other than zero. The loop visits every record and has no \<open>break\<close>.
\<close>

definition truthy_str :: "pystr option \<Rightarrow> bool" where
  "truthy_str v = (case v of None \<Rightarrow> False | Some s \<Rightarrow> s \<noteq> [])"

definition truthy_int :: "int option \<Rightarrow> bool" where
  "truthy_int v = (case v of None \<Rightarrow> False | Some n \<Rightarrow> n \<noteq> 0)"

fun modify_hotel_loop ::
  "'i \<Rightarrow> pystr option \<Rightarrow> pystr option \<Rightarrow> int option \<Rightarrow> 'i hotel list \<Rightarrow> 'i hotel list" where
  "modify_hotel_loop hotel_id name location rooms [] = []"
| "modify_hotel_loop hotel_id name location rooms (hotel # rest) =
     (if h_hotel_id hotel = hotel_id then
        (let hotel1 = (case name of
                         Some s \<Rightarrow> if truthy_str name then hotel\<lparr>h_name := s\<rparr> else hotel
                       | None \<Rightarrow> hotel);
             hotel2 = (case location of
                         Some s \<Rightarrow> if truthy_str location then hotel1\<lparr>h_location := s\<rparr> else hotel1
                       | None \<Rightarrow> hotel1);
             hotel3 = (case rooms of
                         Some n \<Rightarrow> if truthy_int rooms then hotel2\<lparr>h_rooms := n\<rparr> else hotel2
                       | None \<Rightarrow> hotel2)
         in hotel3 # modify_hotel_loop hotel_id name location rooms rest)
      else hotel # modify_hotel_loop hotel_id name location rooms rest)"

definition modify_hotel ::
  "'i \<Rightarrow> pystr option \<Rightarrow> pystr option \<Rightarrow> int option \<Rightarrow> 'i store \<Rightarrow> 'i store" where
  "modify_hotel hotel_id name location rooms st =
     (let hotels = load_data (hotels_file st)
      in st\<lparr>hotels_file := save_data (modify_hotel_loop hotel_id name location rooms hotels)\<rparr>)"

fun modify_customer_loop ::
  "'i \<Rightarrow> pystr option \<Rightarrow> pystr option \<Rightarrow> 'i customer list \<Rightarrow> 'i customer list" where
  "modify_customer_loop customer_id name email [] = []"
| "modify_customer_loop customer_id name email (customer # rest) =
     (if c_customer_id customer = customer_id then
        (let customer1 = (case name of
                            Some s \<Rightarrow> if truthy_str name then customer\<lparr>c_name := s\<rparr> else customer
                          | None \<Rightarrow> customer);
             customer2 = (case email of
                            Some s \<Rightarrow> if truthy_str email then customer1\<lparr>c_email := s\<rparr>
                                      else customer1
                          | None \<Rightarrow> customer1)
         in customer2 # modify_customer_loop customer_id name email rest)
      else customer # modify_customer_loop customer_id name email rest)"

definition modify_customer ::
  "'i \<Rightarrow> pystr option \<Rightarrow> pystr option \<Rightarrow> 'i store \<Rightarrow> 'i store" where
  "modify_customer customer_id name email st =
     (let customers = load_data (customers_file st)
      in st\<lparr>customers_file := save_data (modify_customer_loop customer_id name email customers)\<rparr>)"

text \<open>The store of two hotels that carry the same id (\<open>Hotel.create_hotel\<close> appends
  without looking for the id), used below.\<close>

definition twin_hotels :: "int store" where
  "twin_hotels =
     \<lparr>hotels_file = Data
        [\<lparr>h_hotel_id = 1, h_name = lit ''A'', h_location = lit ''X'', h_rooms = 1,
          h_reservations = []\<rparr>,
         \<lparr>h_hotel_id = 1, h_name = lit ''B'', h_location = lit ''Y'', h_rooms = 0,
          h_reservations = []\<rparr>],
      customers_file = Data [],
      reservations_file = Data []\<rparr>"

section \<open>computeSales.py\<close>

subsection \<open>JSON values and the interpreter\<close>

text \<open>
  What \<open>json.load\<close> returns: \<open>None\<close>, a \<open>bool\<close>, an \<open>int\<close> of any size, a \<open>float\<close>,
  a \<open>str\<close>, a \<open>list\<close> or a \<open>dict\<close> with string keys (an association list with
  distinct keys, in the order of the document). The floats are a type \<open>'n\<close>, of which
  the code only uses \<open>0.0\<close>, \<open>+\<close>, \<open>*\<close> and the comparison with zero.
\<close>

datatype 'n json =
    JNull
  | JBool bool
  | JInt int
  | JFloat 'n
  | JStr pystr
  | JList "'n json list"
  | JObj "(pystr \<times> 'n json) list"

text \<open>
  The parts of the interpreter that are no code of the repository are parameters:
  the conversion of an \<open>int\<close> to a \<open>float\<close> (\<open>None\<close> where Python raises
  \<open>OverflowError\<close>, beyond the range of a double), the parsing of a string by
  \<open>float()\<close> (\<open>None\<close> where Python raises \<open>ValueError\<close>), and the text \<open>str()\<close>
  gives for a float, a list or a dictionary.
\<close>

record 'n runtime =
  float_of_int :: "int \<Rightarrow> 'n option"
  float_of_str :: "pystr \<Rightarrow> 'n option"
  str_other :: "'n json \<Rightarrow> pystr"

text \<open>\<open>float(v)\<close>. A \<open>bool\<close> is an \<open>int\<close>; \<open>None\<close>, lists and dictionaries raise
  \<open>TypeError\<close>.\<close>

definition py_float :: "'n runtime \<Rightarrow> 'n json \<Rightarrow> py_error + 'n" where
  "py_float F v =
     (case v of
        JNull \<Rightarrow> Inl TypeError
      | JBool b \<Rightarrow> (case float_of_int F (if b then 1 else 0) of
                     None \<Rightarrow> Inl OverflowError | Some x \<Rightarrow> Inr x)
      | JInt i \<Rightarrow> (case float_of_int F i of None \<Rightarrow> Inl OverflowError | Some x \<Rightarrow> Inr x)
      | JFloat x \<Rightarrow> Inr x
      | JStr s \<Rightarrow> (case float_of_str F s of None \<Rightarrow> Inl ValueError | Some x \<Rightarrow> Inr x)
      | JList xs \<Rightarrow> Inl TypeError
      | JObj kvs \<Rightarrow> Inl TypeError)"

text \<open>\<open>str(v)\<close>.\<close>

definition py_str :: "'n runtime \<Rightarrow> 'n json \<Rightarrow> pystr" where
  "py_str F v =
     (case v of
        JNull \<Rightarrow> lit ''None''
      | JBool b \<Rightarrow> (if b then lit ''True'' else lit ''False'')
      | JInt i \<Rightarrow> str_int i
      | JStr s \<Rightarrow> s
      | JFloat x \<Rightarrow> str_other F v
      | JList xs \<Rightarrow> str_other F v
      | JObj kvs \<Rightarrow> str_other F v)"

text \<open>The truth value of \<open>v\<close> in a condition.\<close>

definition truthy :: "'n::zero json \<Rightarrow> bool" where
  "truthy v =
     (case v of
        JNull \<Rightarrow> False
      | JBool b \<Rightarrow> b
      | JInt i \<Rightarrow> i \<noteq> 0
      | JFloat x \<Rightarrow> x \<noteq> 0
      | JStr s \<Rightarrow> s \<noteq> []
      | JList xs \<Rightarrow> xs \<noteq> []
      | JObj kvs \<Rightarrow> kvs \<noteq> [])"

text \<open>\<open>d.get(key)\<close> and \<open>d.get(key, default)\<close>.\<close>

definition dict_get :: "(pystr \<times> 'n json) list \<Rightarrow> pystr \<Rightarrow> 'n json" where
  "dict_get d key = (case map_of d key of None \<Rightarrow> JNull | Some v \<Rightarrow> v)"

definition dict_get_default :: "(pystr \<times> 'n json) list \<Rightarrow> pystr \<Rightarrow> 'n json \<Rightarrow> 'n json" where
  "dict_get_default d key dflt = (case map_of d key of None \<Rightarrow> dflt | Some v \<Rightarrow> v)"

subsection \<open>The data classes\<close>

record 'n sale_item =
  si_product :: pystr
  si_quantity :: 'n
  si_unit_price :: 'n

definition line_total :: "'n::times sale_item \<Rightarrow> 'n" where
  "line_total item = si_quantity item * si_unit_price item"

record 'n sale_group =
  sg_sale_id :: pystr
  sg_sale_date :: pystr
  sg_items :: "'n sale_item list"

text \<open>\<open>sum(item.line_total for item in self.items)\<close>, added up from the left.\<close>

definition subtotal :: "'n::{zero,plus,times} sale_group \<Rightarrow> 'n" where
  "subtotal g = foldl (+) 0 (map line_total (sg_items g))"

subsection \<open>build_price_catalog\<close>



subsection \<open>parse_sales\<close>

text \<open>
  \<open>grouped\<close> is a dictionary in insertion order: an association list with distinct
  keys. \<open>upd_group\<close> changes the group stored under a key, as the assignments to
  \<open>grouped[sale_id_key].sale_date\<close> and the call of
  \<open>grouped[sale_id_key].items.append\<close> do.
\<close>

type_synonym 'n groups = "(pystr \<times> 'n sale_group) list"

definition upd_group :: "pystr \<Rightarrow> ('n sale_group \<Rightarrow> 'n sale_group) \<Rightarrow> 'n groups \<Rightarrow> 'n groups" where
  "upd_group key f grouped = map (\<lambda>(k, g). if k = key then (k, f g) else (k, g)) grouped"

text \<open>
  One pass of the loop body over a row, on the three variables of the loop. Each
  \<open>continue\<close> of the source is a result with the error count one higher.
\<close>

definition sales_step ::
  "'n::{zero,plus,times} runtime \<Rightarrow> (pystr \<rightharpoonup> 'n) \<Rightarrow> 'n json \<Rightarrow> 'n groups \<times> 'n \<times> nat \<Rightarrow>
     py_error + ('n groups \<times> 'n \<times> nat)" where
  "sales_step F prices row st =
     (case st of (grouped, grand_total, error_count) \<Rightarrow>
        (case row of
           JObj d \<Rightarrow>
             (let sale_id = dict_get d (lit ''SALE_ID'');
                  sale_date = dict_get_default d (lit ''SALE_Date'') (JStr (lit ''''));
                  product = dict_get d (lit ''Product'');
                  quantity = dict_get d (lit ''Quantity'')
              in if sale_id = JNull then Inr (grouped, grand_total, error_count + 1)
                 else
                   (case product of
                      JStr p \<Rightarrow>
                        if py_strip p = [] then Inr (grouped, grand_total, error_count + 1)
                        else
                          (case prices p of
                             None \<Rightarrow> Inr (grouped, grand_total, error_count + 1)
                           | Some unit_price \<Rightarrow>
                               (case py_float F quantity of
                                  Inl TypeError \<Rightarrow> Inr (grouped, grand_total, error_count + 1)
                                | Inl ValueError \<Rightarrow> Inr (grouped, grand_total, error_count + 1)
                                | Inl e \<Rightarrow> Inl e
                                | Inr qty_num \<Rightarrow>
                                    (let item = \<lparr>si_product = p, si_quantity = qty_num,
                                                 si_unit_price = unit_price\<rparr>;
                                         sale_id_key = py_str F sale_id;
                                         grouped1 =
                                           (if map_of grouped sale_id_key = None
                                            then grouped @
                                              [(sale_id_key,
                                                \<lparr>sg_sale_id = sale_id_key,
                                                 sg_sale_date = py_str F sale_date,
                                                 sg_items = []\<rparr>)]
                                            else grouped);
                                         grouped2 =
                                           upd_group sale_id_key
                                             (\<lambda>g. if sg_sale_date g = [] \<and> truthy sale_date
                                                  then g\<lparr>sg_sale_date := py_str F sale_date\<rparr>
                                                  else g)
                                             grouped1;
                                         grouped3 =
                                           upd_group sale_id_key
                                             (\<lambda>g. g\<lparr>sg_items := sg_items g @ [item]\<rparr>)
                                             grouped2
                                     in Inr (grouped3, grand_total + line_total item,
                                             error_count))))
                    | _ \<Rightarrow> Inr (grouped, grand_total, error_count + 1)))
         | _ \<Rightarrow> Inr (grouped, grand_total, error_count + 1)))"

fun sales_loop ::
  "'n::{zero,plus,times} runtime \<Rightarrow> (pystr \<rightharpoonup> 'n) \<Rightarrow> 'n json list \<Rightarrow> 'n groups \<times> 'n \<times> nat \<Rightarrow>
     py_error + ('n groups \<times> 'n \<times> nat)" where
  "sales_loop F prices [] st = Inr st"
| "sales_loop F prices (row # rest) st =
     (case sales_step F prices row st of
        Inl e \<Rightarrow> Inl e
      | Inr st' \<Rightarrow> sales_loop F prices rest st')"

definition parse_sales ::
  "'n::{zero,plus,times} runtime \<Rightarrow> 'n json \<Rightarrow> (pystr \<rightharpoonup> 'n) \<Rightarrow>
     py_error + ('n groups \<times> 'n \<times> nat)" where
  "parse_sales F sales_data prices =
     (case sales_data of
        JList rows \<Rightarrow> sales_loop F prices rows ([], 0, 0)
      | _ \<Rightarrow> Inr ([], 0, 1))"

subsection \<open>Notions used to state the properties of parse_sales\<close>

text \<open>
  What the loop body does with one row: it rejects the row (a \<open>continue\<close>, counted as
  an error), or accepts it with a group key, a date value and a line item, or
  \<open>float()\<close> raises an exception that the body does not catch.
\<close>

datatype 'n verdict = Rejected | Accepted pystr "'n json" "'n sale_item" | Raises py_error

definition row_verdict :: "'n runtime \<Rightarrow> (pystr \<rightharpoonup> 'n) \<Rightarrow> 'n json \<Rightarrow> 'n verdict" where
  "row_verdict F prices row =
     (case row of
        JObj d \<Rightarrow>
          if dict_get d (lit ''SALE_ID'') = JNull then Rejected
          else
            (case dict_get d (lit ''Product'') of
               JStr p \<Rightarrow>
                 if py_strip p = [] then Rejected
                 else
                   (case prices p of
                      None \<Rightarrow> Rejected
                    | Some unit_price \<Rightarrow>
                        (case py_float F (dict_get d (lit ''Quantity'')) of
                           Inr qty_num \<Rightarrow>
                             Accepted (py_str F (dict_get d (lit ''SALE_ID'')))
                               (dict_get_default d (lit ''SALE_Date'') (JStr (lit '''')))
                               \<lparr>si_product = p, si_quantity = qty_num,
                                si_unit_price = unit_price\<rparr>
                         | Inl TypeError \<Rightarrow> Rejected
                         | Inl ValueError \<Rightarrow> Rejected
                         | Inl e \<Rightarrow> Raises e))
             | _ \<Rightarrow> Rejected)
      | _ \<Rightarrow> Rejected)"

definition is_rejected :: "'n runtime \<Rightarrow> (pystr \<rightharpoonup> 'n) \<Rightarrow> 'n json \<Rightarrow> bool" where
  "is_rejected F prices row = (row_verdict F prices row = Rejected)"

definition raises :: "'n runtime \<Rightarrow> (pystr \<rightharpoonup> 'n) \<Rightarrow> 'n json \<Rightarrow> bool" where
  "raises F prices row = (case row_verdict F prices row of Raises e \<Rightarrow> True | _ \<Rightarrow> False)"

text \<open>The accepted rows of a list, in input order: key, date value and line item.\<close>

fun accepted_rows ::
  "'n runtime \<Rightarrow> (pystr \<rightharpoonup> 'n) \<Rightarrow> 'n json list \<Rightarrow> (pystr \<times> 'n json \<times> 'n sale_item) list" where
  "accepted_rows F prices [] = []"
| "accepted_rows F prices (row # rest) =
     (case row_verdict F prices row of
        Accepted k d item \<Rightarrow> (k, d, item) # accepted_rows F prices rest
      | _ \<Rightarrow> accepted_rows F prices rest)"

text \<open>The \<open>Product\<close> value of the row is a key of the catalogue.\<close>

definition known_product :: "(pystr \<rightharpoonup> 'n) \<Rightarrow> 'n json \<Rightarrow> bool" where
  "known_product prices row =
     (case row of
        JObj d \<Rightarrow> (case dict_get d (lit ''Product'') of
                    JStr p \<Rightarrow> prices p \<noteq> None
                  | _ \<Rightarrow> False)
      | _ \<Rightarrow> False)"

text \<open>The line items of the group with key \<open>k\<close>, and all the subtotals.\<close>

definition group_items :: "'n groups \<Rightarrow> pystr \<Rightarrow> 'n sale_item list" where
  "group_items grouped k = (case map_of grouped k of None \<Rightarrow> [] | Some g \<Rightarrow> sg_items g)"

text \<open>What an accepted row does to \<open>grouped\<close>.\<close>

definition group_add ::
  "'n::zero runtime \<Rightarrow> pystr \<Rightarrow> 'n json \<Rightarrow> 'n sale_item \<Rightarrow> 'n groups \<Rightarrow> 'n groups" where
  "group_add F key sale_date item grouped =
     upd_group key (\<lambda>g. g\<lparr>sg_items := sg_items g @ [item]\<rparr>)
       (upd_group key
          (\<lambda>g. if sg_sale_date g = [] \<and> truthy sale_date
               then g\<lparr>sg_sale_date := py_str F sale_date\<rparr> else g)
          (if map_of grouped key = None
           then grouped @
             [(key, \<lparr>sg_sale_id = key, sg_sale_date = py_str F sale_date, sg_items = []\<rparr>)]
           else grouped))"

text \<open>The error count one higher.\<close>

definition one_more_error :: "'g \<times> 'n \<times> nat \<Rightarrow> 'g \<times> 'n \<times> nat" where
  "one_more_error st = (case st of (grouped, grand_total, error_count) \<Rightarrow>
     (grouped, grand_total, error_count + 1))"

text \<open>A runtime for worked examples: its floats are the integers, \<open>float()\<close> reads no
  string, and the integers beyond \<open>10 ^ 308\<close> overflow.\<close>

definition demo_runtime :: "int runtime" where
  "demo_runtime =
     \<lparr>float_of_int = (\<lambda>i. if \<bar>i\<bar> < 10 ^ 308 then Some i else None),
      float_of_str = (\<lambda>s. None),
      str_other = (\<lambda>v. lit ''?'')\<rparr>"

text \<open>Rows for worked examples: a catalogue with one product, and a sales row with
  the four keys that \<open>parse_sales\<close> reads.\<close>

definition demo_prices :: "pystr \<rightharpoonup> int" where
  "demo_prices = [lit ''Pen'' \<mapsto> 2]"

definition sale_row :: "'n json \<Rightarrow> 'n json \<Rightarrow> pystr \<Rightarrow> 'n json \<Rightarrow> 'n json" where
  "sale_row sale_id sale_date product quantity =
     JObj [(lit ''SALE_ID'', sale_id), (lit ''SALE_Date'', sale_date),
           (lit ''Product'', JStr product), (lit ''Quantity'', quantity)]"

definition demo_rows :: "int json list" where
  "demo_rows =
     [sale_row (JInt 1) (JStr (lit '''')) (lit ''Pen'') (JInt 3),
      sale_row (JInt 1) (JStr (lit ''2024-01-01'')) (lit ''Ink'') (JInt 5),
      sale_row (JInt 2) (JStr (lit ''2024-01-02'')) (lit ''Pen'') (JInt 2),
      sale_row (JInt 1) (JStr (lit ''2024-01-03'')) (lit ''Pen'') (JStr (lit ''many'')),
      sale_row (JInt 1) (JStr (lit ''2024-01-04'')) (lit ''Pen'') (JInt 1),
      sale_row (JInt 1) (JStr (lit ''2024-01-05'')) (lit ''Pen'') (JInt 1)]"










subsection \<open>sale_sort_key and the order of the report\<close>

text \<open>
  \<open>int(s)\<close> for a string: surrounding whitespace is dropped, a sign may come first,
  and the rest is decimal digits, where single underscores may stand between digits;
  \<open>None\<close> is \<open>ValueError\<close>. (Python also reads the decimal digits of other scripts
  and refuses numerals of several thousand digits; neither is modelled.)
\<close>

fun int_digits :: "bool \<Rightarrow> nat \<Rightarrow> pystr \<Rightarrow> nat option" where
  "int_digits after_digit acc [] = (if after_digit then Some acc else None)"
| "int_digits after_digit acc (c # cs) =
     (if 48 \<le> c \<and> c \<le> 57 then int_digits True (acc * 10 + (c - 48)) cs
      else if c = 95 \<and> after_digit then int_digits False acc cs
      else None)"

definition py_int :: "pystr \<Rightarrow> int option" where
  "py_int s =
     (case py_strip s of
        [] \<Rightarrow> None
      | c # cs \<Rightarrow>
          if c = 45 then map_option (\<lambda>n. - int n) (int_digits False 0 cs)
          else if c = 43 then map_option int (int_digits False 0 cs)
          else map_option int (int_digits False 0 (c # cs)))"

text \<open>\<open>f"{n:012d}"\<close>: the sign of a negative number, then the digits, filled with
  zeros between the two up to a width of twelve; a longer numeral is not cut.\<close>

definition format_012d :: "int \<Rightarrow> pystr" where
  "format_012d n =
     (let sign = (if n < 0 then lit ''-'' else lit '''');
          digits = dec_digits (nat \<bar>n\<bar>)
      in sign @ replicate (12 - length sign - length digits) 48 @ digits)"

definition sale_sort_key :: "pystr \<Rightarrow> nat \<times> pystr" where
  "sale_sort_key sale_id =
     (case py_int sale_id of
        Some n \<Rightarrow> (0, format_012d n)
      | None \<Rightarrow> (1, sale_id))"

text \<open>
  The order in which \<open>format_report\<close> prints the groups:
  \<open>sorted(grouped.keys(), key=sale_sort_key)\<close>, a stable sort of the keys in insertion
  order; pairs compare by their first parts, then by their second, and strings by code
  points. \<open>report_ids\<close> is that order for the result of \<open>parse_sales\<close>.
\<close>

definition report_order :: "'n groups \<Rightarrow> pystr list" where
  "report_order grouped = sort_key sale_sort_key (map fst grouped)"

definition report_ids :: "py_error + ('n groups \<times> 'n \<times> nat) \<Rightarrow> pystr list" where
  "report_ids res =
     (case res of
        Inr (grouped, grand_total, error_count) \<Rightarrow> report_order grouped
      | Inl e \<Rightarrow> [])"

text \<open>Two sales with the ids \<open>-2\<close> and \<open>-1\<close>, and two with ids of twelve and of
  thirteen digits.\<close>

definition negative_id_rows :: "int json list" where
  "negative_id_rows =
     [sale_row (JInt (- 2)) (JStr (lit '''')) (lit ''Pen'') (JInt 1),
      sale_row (JInt (- 1)) (JStr (lit '''')) (lit ''Pen'') (JInt 1)]"

definition long_id_rows :: "int json list" where
  "long_id_rows =
     [sale_row (JInt 999999999999) (JStr (lit '''')) (lit ''Pen'') (JInt 1),
      sale_row (JInt 1000000000000) (JStr (lit '''')) (lit ''Pen'') (JInt 1)]"

subsection \<open>load_json_file and main\<close>

text \<open>
  What opening a path and decoding its content as JSON leads to: no such file, another
  error of the operating system, text that is no JSON, bytes that are no UTF-8, or a
  value. \<open>load_json_file\<close> catches \<open>FileNotFoundError\<close>, \<open>json.JSONDecodeError\<close>
  and \<open>OSError\<close>, prints the error and returns \<open>None\<close>; it does not catch the
  \<open>UnicodeDecodeError\<close> of the fourth case.
\<close>

datatype 'n read_outcome = NoFile | ReadFails | BadJSON | BadEncoding | Loaded "'n json"



definition exit_code :: "py_error + int \<Rightarrow> int" where
  "exit_code r = (case r of Inl e \<Rightarrow> 1 | Inr n \<Rightarrow> n)"

text \<open>The input file is missing or unreadable in a way that \<open>load_json_file\<close>
  catches.\<close>

definition unreadable :: "'n read_outcome \<Rightarrow> bool" where
  "unreadable outcome = (outcome = NoFile \<or> outcome = ReadFails \<or> outcome = BadJSON)"

text \<open>A command line with two paths, and a directory that holds neither file.\<close>

definition demo_argv :: "pystr list" where
  "demo_argv = [lit ''computeSales.py'', lit ''priceCatalogue.json'', lit ''salesRecord.json'']"

definition no_files :: "pystr \<Rightarrow> int read_outcome" where
  "no_files path = NoFile"

chapter \<open>Properties\<close>

section \<open>Properties of convertNumbers.py\<close>

lemma parse_digits_append:
  "parse_digits al acc (xs @ ys) =
     (case parse_digits al acc xs of None \<Rightarrow> None | Some a \<Rightarrow> parse_digits al a ys)"
  by (induction xs arbitrary: acc) (auto split: option.splits)

lemma to_binary_loop_acc: "to_binary_loop n bits = bits @ to_binary_loop n []"
proof (induction "nat n" arbitrary: n bits rule: less_induct)
  case less
  show ?case
  proof (cases "n > 0")
    case True
    then have lt: "nat (n div 2) < nat n" by auto
    have "to_binary_loop n bits = to_binary_loop (n div 2) (bits @ [str_int (n mod 2)])"
      using True by (simp add: to_binary_loop.simps [of n])
    also have "\<dots> = (bits @ [str_int (n mod 2)]) @ to_binary_loop (n div 2) []"
      using less [OF lt] .
    also have "\<dots> = bits @ to_binary_loop (n div 2) ([] @ [str_int (n mod 2)])"
      using less [OF lt, of "[str_int (n mod 2)]"] by simp
    also have "\<dots> = bits @ to_binary_loop n []"
      using True by (simp add: to_binary_loop.simps [of n])
    finally show ?thesis .
  next
    case False
    then show ?thesis by (simp add: to_binary_loop.simps [of n])
  qed
qed

lemma to_hexadecimal_loop_acc:
  "to_hexadecimal_loop n digits = digits @ to_hexadecimal_loop n []"
proof (induction "nat n" arbitrary: n digits rule: less_induct)
  case less
  show ?case
  proof (cases "n > 0")
    case True
    then have lt: "nat (n div 16) < nat n" by auto
    let ?d = "[HEX_DIGITS ! nat (n mod 16)]"
    have "to_hexadecimal_loop n digits = to_hexadecimal_loop (n div 16) (digits @ [?d])"
      using True by (simp add: to_hexadecimal_loop.simps [of n])
    also have "\<dots> = (digits @ [?d]) @ to_hexadecimal_loop (n div 16) []"
      using less [OF lt] .
    also have "\<dots> = digits @ to_hexadecimal_loop (n div 16) ([] @ [?d])"
      using less [OF lt, of "[?d]"] by simp
    also have "\<dots> = digits @ to_hexadecimal_loop n []"
      using True by (simp add: to_hexadecimal_loop.simps [of n])
    finally show ?thesis .
  next
    case False
    then show ?thesis by (simp add: to_hexadecimal_loop.simps [of n])
  qed
qed

lemma to_binary_loop_step:
  "n > 0 \<Longrightarrow> concat (rev (to_binary_loop n [])) =
     concat (rev (to_binary_loop (n div 2) [])) @ str_int (n mod 2)"
  using to_binary_loop_acc [of "n div 2" "[str_int (n mod 2)]"]
  by (simp add: to_binary_loop.simps [of n])

lemma to_hexadecimal_loop_step:
  "n > 0 \<Longrightarrow> concat (rev (to_hexadecimal_loop n [])) =
     concat (rev (to_hexadecimal_loop (n div 16) [])) @ [HEX_DIGITS ! nat (n mod 16)]"
  using to_hexadecimal_loop_acc [of "n div 16" "[[HEX_DIGITS ! nat (n mod 16)]]"]
  by (simp add: to_hexadecimal_loop.simps [of n])

lemma str_int_bit: "0 \<le> d \<Longrightarrow> d < 2 \<Longrightarrow> str_int d = [48 + nat d]"
  by (cases "d = 0") (simp_all add: str_int_def dec_digits.simps)

lemma digit_of_binary: "d < 2 \<Longrightarrow> digit_of (lit ''01'') (48 + d) = Some d"
  by (cases d) (auto simp: lit_def)

lemma digit_of_nth: "distinct al \<Longrightarrow> d < length al \<Longrightarrow> digit_of al (al ! d) = Some d"
proof (induction al arbitrary: d)
  case Nil
  then show ?case by simp
next
  case (Cons a al)
  then show ?case by (cases d) auto
qed

lemma digit_of_hex: "d < 16 \<Longrightarrow> digit_of HEX_DIGITS (HEX_DIGITS ! d) = Some d"
  by (rule digit_of_nth) (simp_all add: HEX_DIGITS_def lit_def)

lemma parse_binary_loop:
  "0 \<le> n \<Longrightarrow> parse_digits (lit ''01'') 0 (concat (rev (to_binary_loop n []))) = Some (nat n)"
proof (induction "nat n" arbitrary: n rule: less_induct)
  case less
  show ?case
  proof (cases "n > 0")
    case True
    then have lt: "nat (n div 2) < nat n" and ge: "0 \<le> n div 2" by auto
    have d: "0 \<le> n mod 2" "n mod 2 < 2" by auto
    have len: "length (lit ''01'') = 2" by (simp add: lit_def)
    have "nat (n div 2) * 2 + nat (n mod 2) = nat n"
      using True by (simp add: nat_div_distrib nat_mod_distrib)
    then show ?thesis
      using less(1) [OF lt ge] d True
      by (simp add: to_binary_loop_step parse_digits_append str_int_bit digit_of_binary len
           )
  next
    case False
    with less(2) have "n = 0" by simp
    then show ?thesis by (simp add: to_binary_loop.simps [of 0] to_hexadecimal_loop.simps [of 0])
  qed
qed

lemma parse_hexadecimal_loop:
  "0 \<le> n \<Longrightarrow>
     parse_digits HEX_DIGITS 0 (concat (rev (to_hexadecimal_loop n []))) = Some (nat n)"
proof (induction "nat n" arbitrary: n rule: less_induct)
  case less
  show ?case
  proof (cases "n > 0")
    case True
    then have lt: "nat (n div 16) < nat n" and ge: "0 \<le> n div 16" by auto
    have d: "nat (n mod 16) < 16" by auto
    have len: "length HEX_DIGITS = 16" by (simp add: HEX_DIGITS_def lit_def)
    have "nat (n div 16) * 16 + nat (n mod 16) = nat n"
      using True by (simp add: nat_div_distrib nat_mod_distrib)
    then show ?thesis
      using less(1) [OF lt ge] True
      by (simp add: to_hexadecimal_loop_step parse_digits_append digit_of_hex [OF d] len
           )
  next
    case False
    with less(2) have "n = 0" by simp
    then show ?thesis by (simp add: to_binary_loop.simps [of 0] to_hexadecimal_loop.simps [of 0])
  qed
qed

lemma to_binary_loop_nonempty: "n > 0 \<Longrightarrow> concat (rev (to_binary_loop n [])) \<noteq> []"
  by (subst to_binary_loop_step) (simp_all add: str_int_bit)

lemma to_hexadecimal_loop_nonempty:
  "n > 0 \<Longrightarrow> concat (rev (to_hexadecimal_loop n [])) \<noteq> []"
  by (subst to_hexadecimal_loop_step) (simp_all)

lemma to_binary_loop_no_minus:
  "n > 0 \<Longrightarrow> hd (concat (rev (to_binary_loop n []))) \<noteq> 45"
  using parse_binary_loop [of n]
  by (cases "concat (rev (to_binary_loop n []))") (auto simp: lit_def split: if_splits)

lemma to_hexadecimal_loop_no_minus:
  "n > 0 \<Longrightarrow> hd (concat (rev (to_hexadecimal_loop n []))) \<noteq> 45"
  using parse_hexadecimal_loop [of n]
  by (cases "concat (rev (to_hexadecimal_loop n []))")
     (auto simp: HEX_DIGITS_def lit_def split: if_splits)

text \<open>
  C6. For every integer \<open>n\<close>, zero and negative ones included, reading \<open>to_binary n\<close> as
  a base-2 numeral with an optional leading minus sign gives \<open>n\<close> back, and reading
  \<open>to_hexadecimal n\<close> as a base-16 numeral over \<open>0123456789ABCDEF\<close> with an optional
  leading minus sign gives \<open>n\<close> back.
\<close>

theorem base_conversion_roundtrip:
  "parse_numeral (lit ''01'') (to_binary n) = Some n \<and>
   parse_numeral HEX_DIGITS (to_hexadecimal n) = Some n"
proof -
  have bin: "parse_numeral (lit ''01'') (to_binary n) = Some n"
  proof -
    consider "n = 0" | "n > 0" | "n < 0" by linarith
    then show ?thesis
    proof cases
      case 1
      then show ?thesis by (simp add: to_binary_def parse_numeral_def lit_def)
    next
      case 2
      obtain c cs where s: "concat (rev (to_binary_loop n [])) = c # cs"
        using to_binary_loop_nonempty [OF 2] by (cases "concat (rev (to_binary_loop n []))") auto
      have "c \<noteq> 45" using to_binary_loop_no_minus [OF 2] s by simp
      then show ?thesis
        using 2 s parse_binary_loop [of n]
        by (simp add: to_binary_def parse_numeral_def lit_def)
    next
      case 3
      then have pos: "- n > 0" by simp
      show ?thesis
        using 3 to_binary_loop_nonempty [OF pos] parse_binary_loop [of "- n"]
        by (simp add: to_binary_def parse_numeral_def lit_def)
    qed
  qed
  have hex: "parse_numeral HEX_DIGITS (to_hexadecimal n) = Some n"
  proof -
    consider "n = 0" | "n > 0" | "n < 0" by linarith
    then show ?thesis
    proof cases
      case 1
      then show ?thesis
        by (simp add: to_hexadecimal_def parse_numeral_def HEX_DIGITS_def lit_def)
    next
      case 2
      obtain c cs where s: "concat (rev (to_hexadecimal_loop n [])) = c # cs"
        using to_hexadecimal_loop_nonempty [OF 2]
        by (cases "concat (rev (to_hexadecimal_loop n []))") auto
      have "c \<noteq> 45" using to_hexadecimal_loop_no_minus [OF 2] s by simp
      then show ?thesis
        using 2 s parse_hexadecimal_loop [of n]
        by (simp add: to_hexadecimal_def parse_numeral_def lit_def
             )
    next
      case 3
      then have pos: "- n > 0" by simp
      show ?thesis
        using 3 to_hexadecimal_loop_nonempty [OF pos] parse_hexadecimal_loop [of "- n"]
        by (simp add: to_hexadecimal_def parse_numeral_def lit_def
             )
    qed
  qed
  from bin hex show ?thesis by simp
qed

section \<open>Properties of computeStatistics.py\<close>

lemma freq_set_keys: "fst ` set (freq_set freq v c) = insert v (fst ` set freq)"
  by (induction freq v c rule: freq_set.induct) auto

lemma freq_set_distinct: "distinct (map fst freq) \<Longrightarrow> distinct (map fst (freq_set freq v c))"
  by (induction freq v c rule: freq_set.induct) (auto simp: freq_set_keys)




lemma count_values_distinct:
  "distinct (map fst freq) \<Longrightarrow> distinct (map fst (count_values vs freq))"
  by (induction vs arbitrary: freq) (auto simp: freq_set_distinct)










lemma count_list_le_1_distinct: "(\<forall>v. count_list xs v \<le> 1) \<longleftrightarrow> distinct xs"
proof (induction xs)
  case Nil
  then show ?case by simp
next
  case (Cons x xs)
  show ?case
  proof
    assume a: "\<forall>v. count_list (x # xs) v \<le> 1"
    then have "count_list (x # xs) x \<le> 1" by blast
    then have "count_list xs x = 0" by simp
    then have nx: "x \<notin> set xs" by (simp add: count_list_0_iff)
    have "\<forall>v. count_list xs v \<le> 1"
    proof
      fix v
      have "count_list xs v \<le> count_list (x # xs) v" by simp
      also have "\<dots> \<le> 1" using a by blast
      finally show "count_list xs v \<le> 1" .
    qed
    with Cons nx show "distinct (x # xs)" by simp
  next
    assume d: "distinct (x # xs)"
    then have "\<forall>v. count_list xs v \<le> 1" using Cons by simp
    moreover have "count_list xs x = 0" using d by (simp add: count_list_0_iff)
    ultimately show "\<forall>v. count_list (x # xs) v \<le> 1" by auto
  qed
qed

lemma once_iff_distinct: "(\<forall>v \<in> set xs. count_list xs v = 1) \<longleftrightarrow> distinct xs"
proof -
  have "(\<forall>v \<in> set xs. count_list xs v = 1) \<longleftrightarrow> (\<forall>v. count_list xs v \<le> 1)"
  proof
    assume a: "\<forall>v \<in> set xs. count_list xs v = 1"
    show "\<forall>v. count_list xs v \<le> 1"
    proof
      fix v show "count_list xs v \<le> 1"
        using a by (cases "v \<in> set xs") (simp_all add: count_list_0_iff)
    qed
  next
    assume a: "\<forall>v. count_list xs v \<le> 1"
    show "\<forall>v \<in> set xs. count_list xs v = 1"
    proof
      fix v assume "v \<in> set xs"
      then have "count_list xs v \<noteq> 0" by (simp add: count_list_0_iff)
      moreover have "count_list xs v \<le> 1" using a by blast
      ultimately show "count_list xs v = 1" by linarith
    qed
  qed
  then show ?thesis by (simp only: count_list_le_1_distinct)
qed




section \<open>Properties of wordCount.py\<close>

lemma py_split_from_no_empty: "[] \<notin> set (py_split_from cur s)"
  by (induction cur s rule: py_split_from.induct) auto

lemma read_parts_no_empty:
  "[] \<notin> set parts \<Longrightarrow> read_parts line_no parts (tokens, errors) = (tokens @ parts, errors)"
  by (induction parts arbitrary: tokens) auto

lemma read_lines_tokens:
  "read_lines line_no ls (tokens, errors) =
     (tokens @ concat (map (\<lambda>raw. py_split (py_strip raw)) ls), errors)"
proof (induction ls arbitrary: line_no tokens)
  case Nil
  then show ?case by simp
next
  case (Cons raw rest)
  show ?case
  proof (cases "py_strip raw = []")
    case True
    then show ?thesis using Cons by (simp add: py_split_def)
  next
    case False
    have "[] \<notin> set (py_split (py_strip raw))"
      by (simp add: py_split_def py_split_from_no_empty)
    then show ?thesis using False Cons by (simp add: read_parts_no_empty)
  qed
qed

text \<open>Splitting line by line gives the tokens of the whole text.\<close>

lemma py_split_from_space:
  "py_isspace c \<Longrightarrow>
     py_split_from cur (xs @ c # ys) = py_split_from cur xs @ py_split_from [] ys"
  by (induction xs arbitrary: cur) auto

lemma py_split_space:
  "py_isspace c \<Longrightarrow> py_split (xs @ c # ys) = py_split xs @ py_split ys"
  by (simp add: py_split_def py_split_from_space)

lemma py_split_from_cur:
  "\<forall>c \<in> set cur. \<not> py_isspace c \<Longrightarrow> py_split_from [] (cur @ s) = py_split_from cur s"
proof (induction cur arbitrary: s rule: rev_induct)
  case Nil
  then show ?case by simp
next
  case (snoc x xs)
  then show ?case by simp
qed

lemma py_split_all_space: "\<forall>c \<in> set ws. py_isspace c \<Longrightarrow> py_split ws = []"
  by (induction ws) (auto simp: py_split_def)

lemma py_split_dropWhile: "py_split (dropWhile py_isspace s) = py_split s"
  by (induction s) (auto simp: py_split_def)

lemma py_split_trailing:
  "\<forall>c \<in> set ws. py_isspace c \<Longrightarrow> py_split (xs @ ws) = py_split xs"
proof (cases ws)
  case Nil
  then show ?thesis by simp
next
  case (Cons w ws')
  assume a: "\<forall>c \<in> set ws. py_isspace c"
  then have "py_split (xs @ w # ws') = py_split xs @ py_split ws'"
    using Cons by (intro py_split_space) simp
  moreover have "py_split ws' = []" using a Cons by (intro py_split_all_space) simp
  ultimately show ?thesis using Cons by simp
qed

lemma py_split_strip: "py_split (py_strip s) = py_split s"
proof -
  let ?t = "dropWhile py_isspace s"
  have "?t = rev (dropWhile py_isspace (rev ?t)) @ rev (takeWhile py_isspace (rev ?t))"
    by (metis rev_append rev_rev_ident takeWhile_dropWhile_id)
  moreover have "\<forall>c \<in> set (rev (takeWhile py_isspace (rev ?t))). py_isspace c"
    by (auto dest: set_takeWhileD)
  ultimately have "py_split ?t = py_split (rev (dropWhile py_isspace (rev ?t)))"
    by (metis py_split_trailing)
  then show ?thesis by (simp add: py_strip_def py_split_dropWhile)
qed

lemma linebreak_isspace: "is_linebreak c \<Longrightarrow> py_isspace c"
  by (auto simp: is_linebreak_def py_isspace_def)

lemma splitlines_from_tokens:
  "\<forall>c \<in> set cur. \<not> is_linebreak c \<Longrightarrow>
     concat (map py_split (splitlines_from cur s)) = py_split (cur @ s)"
proof (induction cur s rule: splitlines_from.induct)
  case (1 cur)
  then show ?case by (simp add: py_split_def)
next
  case (2 cur c)
  show ?case
  proof (cases "is_linebreak c")
    case True
    then have "py_split (cur @ c # []) = py_split cur @ py_split []"
      by (intro py_split_space linebreak_isspace)
    then show ?thesis using True by (simp add: py_split_def)
  next
    case False
    then show ?thesis by simp
  qed
next
  case (3 cur c d ds)
  consider "c = 13 \<and> d = 10" | "\<not> (c = 13 \<and> d = 10)" "is_linebreak c"
    | "\<not> (c = 13 \<and> d = 10)" "\<not> is_linebreak c" by blast
  then show ?case
  proof cases
    case 1
    have sp: "py_isspace c" "py_isspace d" using 1 by (simp_all add: py_isspace_def)
    have "py_split (cur @ c # d # ds) = py_split cur @ py_split (d # ds)"
      using sp(1) by (rule py_split_space)
    moreover have "py_split [] = []" by (simp add: py_split_def)
    then have "py_split (d # ds) = py_split ds"
      using py_split_space [OF sp(2), of "[]" ds] by simp
    ultimately have "py_split (cur @ c # d # ds) = py_split cur @ py_split ds" by simp
    then show ?thesis using 1 "3.IH"(1) by simp
  next
    case 2
    have "py_split (cur @ c # d # ds) = py_split cur @ py_split (d # ds)"
      using 2(2) by (intro py_split_space linebreak_isspace)
    then show ?thesis using 2 "3.IH"(2) by auto
  next
    case 3
    then show ?thesis using "3.IH"(3) "3.prems" by auto
  qed
qed

lemma read_tokens_eq: "read_tokens s = (py_split s, [])"
proof -
  have "concat (map (\<lambda>raw. py_split (py_strip raw)) (splitlines s)) =
          concat (map py_split (splitlines s))"
    by (simp add: py_split_strip)
  also have "\<dots> = py_split s"
    using splitlines_from_tokens [of "[]" s] by (simp add: splitlines_def)
  finally show ?thesis by (simp add: read_tokens_def read_lines_tokens)
qed

lemma freq_set_sum:
  "sum_list (map snd (freq_set freq v c)) + freq_get freq v = sum_list (map snd freq) + c"
  by (induction freq v c rule: freq_set.induct) (auto simp: freq_get_def)

lemma count_values_sum:
  "sum_list (map snd (count_values vs freq)) = sum_list (map snd freq) + length vs"
proof (induction vs arbitrary: freq)
  case Nil
  then show ?case by simp
next
  case (Cons v vs)
  have "sum_list (map snd (freq_set freq v (freq_get freq v + 1))) =
          sum_list (map snd freq) + 1"
    using freq_set_sum [of freq v "freq_get freq v + 1"] by simp
  then show ?case using Cons by simp
qed

lemma count_frequencies_sum:
  "sum_list (map snd (count_frequencies tokens)) = length tokens"
  by (simp add: count_frequencies_def count_values_sum)

lemma wc_word_lines_ok:
  "set ws \<subseteq> fst ` set freq \<Longrightarrow>
     wc_word_lines freq ws tot lines =
       Inr (tot + sum_list (map (freq_get freq) ws),
            lines @ map (\<lambda>w. w @ lit [CHR 0x09] @ str_int (int (freq_get freq w))) ws)"
proof (induction ws arbitrary: tot lines)
  case Nil
  then show ?case by simp
next
  case (Cons w ws)
  then have "w \<in> fst ` set freq" by simp
  then obtain c where c: "map_of freq w = Some c"
    by (metis map_of_eq_None_iff not_Some_eq)
  then have g: "freq_get freq w = c" by (simp add: freq_get_def)
  show ?case using Cons c g by simp
qed

lemma freq_get_keys:
  "distinct (map fst freq) \<Longrightarrow> map (freq_get freq) (map fst freq) = map snd freq"
proof -
  assume d: "distinct (map fst freq)"
  have "\<And>p. p \<in> set freq \<Longrightarrow> freq_get freq (fst p) = snd p"
  proof -
    fix p assume "p \<in> set freq"
    then have "map_of freq (fst p) = Some (snd p)" using d by simp
    then show "freq_get freq (fst p) = snd p" by (simp add: freq_get_def)
  qed
  then show ?thesis by simp
qed

lemma sum_sorted_keys:
  assumes "distinct (map fst freq)"
  shows "sum_list (map (freq_get freq) (sort (map fst freq))) = sum_list (map snd freq)"
proof -
  let ?ks = "map fst freq"
  have "sum_list (map (freq_get freq) (sort ?ks)) = sum (freq_get freq) (set (sort ?ks))"
    using assms by (subst sum.distinct_set_conv_list) simp_all
  also have "\<dots> = sum (freq_get freq) (set ?ks)" by simp
  also have "\<dots> = sum_list (map (freq_get freq) ?ks)"
    using assms by (rule sum.distinct_set_conv_list)
  also have "\<dots> = sum_list (map snd freq)" using assms by (simp only: freq_get_keys)
  finally show ?thesis .
qed

lemma tab_not_in_header: "9 \<notin> set (lit ''Errors (non-fatal):'')"
  by (simp add: lit_def)

lemma wc_report_lines_no_errors:
  assumes "distinct (map fst freq)"
  shows "\<exists>ls. wc_report_lines freq [] elapsed = Inr ls \<and>
           lit ''Errors (non-fatal):'' \<notin> set ls \<and>
           lit ''Grand Total'' @ lit [CHR 0x09] @ str_int (int (sum_list (map snd freq))) \<in> set ls"
proof -
  let ?H = "lit ''Errors (non-fatal):''"
  let ?ws = "sort (map fst freq)"
  let ?wl = "map (\<lambda>w. w @ lit [CHR 0x09] @ str_int (int (freq_get freq w))) ?ws"
  let ?tot = "sum_list (map snd freq)"
  let ?ls = "([lit ''WORD'' @ lit [CHR 0x09] @ lit ''COUNT''] @ ?wl)
             @ [lit '''', lit ''Grand Total'' @ lit [CHR 0x09] @ str_int (int ?tot)]
             @ [lit '''', lit ''Elapsed time: '' @ elapsed @ lit '' seconds'']"
  have "wc_word_lines freq ?ws 0 [lit ''WORD'' @ lit [CHR 0x09] @ lit ''COUNT'']
          = Inr (?tot, [lit ''WORD'' @ lit [CHR 0x09] @ lit ''COUNT''] @ ?wl)"
    using sum_sorted_keys [OF assms] by (subst wc_word_lines_ok) simp_all
  then have r: "wc_report_lines freq [] elapsed = Inr ?ls"
    by (simp add: wc_report_lines_def)
  have tab: "\<And>l. 9 \<in> set l \<Longrightarrow> l \<noteq> ?H"
    using tab_not_in_header by blast
  have "\<And>l. l \<in> set ?wl \<Longrightarrow> l \<noteq> ?H"
  proof -
    fix l assume "l \<in> set ?wl"
    then have "9 \<in> set l" by (auto simp: lit_def)
    then show "l \<noteq> ?H" by (rule tab)
  qed
  then have 1: "?H \<notin> set ?wl" by blast
  have 2: "lit ''WORD'' @ lit [CHR 0x09] @ lit ''COUNT'' \<noteq> ?H" by (simp add: lit_def)
  have 3: "lit ''Grand Total'' @ lit [CHR 0x09] @ str_int (int ?tot) \<noteq> ?H"
    by (simp add: lit_def)
  have 4: "lit ''Elapsed time: '' @ elapsed @ lit '' seconds'' \<noteq> ?H"
    by (simp add: lit_def)
  have 5: "lit '''' \<noteq> ?H" by (simp add: lit_def)
  have "?H \<notin> set ?ls" using 1 2 3 4 5 by (simp del: map_map)
  moreover have "lit ''Grand Total'' @ lit [CHR 0x09] @ str_int (int ?tot) \<in> set ?ls" by simp
  ultimately show ?thesis using r by blast
qed

text \<open>
  C10. For every input text, \<open>read_tokens\<close> returns an empty error list: its tokens are
  all the whitespace-delimited tokens of the text, none of them empty. So the counts
  that the report prints add up to the number of tokens, which is the grand total it
  prints, and the report has no error section.
\<close>

theorem read_tokens_never_rejects:
  "snd (read_tokens s) = [] \<and>
   fst (read_tokens s) = py_split s \<and>
   [] \<notin> set (fst (read_tokens s)) \<and>
   sum_list (map snd (count_frequencies (fst (read_tokens s)))) = length (fst (read_tokens s)) \<and>
   (\<exists>ls. wc_report_lines (count_frequencies (fst (read_tokens s))) (snd (read_tokens s)) elapsed
            = Inr ls \<and>
         lit ''Grand Total'' @ lit [CHR 0x09] @ str_int (int (length (fst (read_tokens s))))
            \<in> set ls \<and>
         lit ''Errors (non-fatal):'' \<notin> set ls)"
proof -
  let ?toks = "fst (read_tokens s)"
  have e: "snd (read_tokens s) = []" and t: "?toks = py_split s"
    by (simp_all add: read_tokens_eq)
  have n: "[] \<notin> set ?toks"
    unfolding t by (simp add: py_split_def py_split_from_no_empty)
  have c: "sum_list (map snd (count_frequencies ?toks)) = length ?toks"
    by (rule count_frequencies_sum)
  have "distinct (map fst (count_frequencies ?toks))"
    by (simp add: count_frequencies_def count_values_distinct)
  from wc_report_lines_no_errors [OF this, of elapsed]
  have "\<exists>ls. wc_report_lines (count_frequencies ?toks) [] elapsed = Inr ls \<and>
           lit ''Grand Total'' @ lit [CHR 0x09] @ str_int (int (length ?toks)) \<in> set ls \<and>
           lit ''Errors (non-fatal):'' \<notin> set ls"
    unfolding c by blast
  then show ?thesis using e t n c by simp
qed

section \<open>Properties of the hotel reservation system\<close>








lemma modify_hotel_loop_rel:
  "list_all2
     (\<lambda>h h'. h_hotel_id h' = h_hotel_id h \<and> h_reservations h' = h_reservations h \<and>
        (h_hotel_id h \<noteq> hotel_id \<longrightarrow> h' = h) \<and>
        (name = None \<or> name = Some [] \<longrightarrow> h_name h' = h_name h) \<and>
        (location = None \<or> location = Some [] \<longrightarrow> h_location h' = h_location h) \<and>
        (rooms = None \<or> rooms = Some 0 \<longrightarrow> h_rooms h' = h_rooms h) \<and>
        (h_hotel_id h = hotel_id \<longrightarrow>
           (\<forall>s. name = Some s \<and> s \<noteq> [] \<longrightarrow> h_name h' = s) \<and>
           (\<forall>s. location = Some s \<and> s \<noteq> [] \<longrightarrow> h_location h' = s) \<and>
           (\<forall>n. rooms = Some n \<and> n \<noteq> 0 \<longrightarrow> h_rooms h' = n)))
     hotels (modify_hotel_loop hotel_id name location rooms hotels)"
  by (induction hotels)
     (auto simp: truthy_str_def truthy_int_def Let_def split: option.splits)

lemma modify_customer_loop_rel:
  "list_all2
     (\<lambda>c c'. c_customer_id c' = c_customer_id c \<and>
        (c_customer_id c \<noteq> customer_id \<longrightarrow> c' = c) \<and>
        (name = None \<or> name = Some [] \<longrightarrow> c_name c' = c_name c) \<and>
        (email = None \<or> email = Some [] \<longrightarrow> c_email c' = c_email c) \<and>
        (c_customer_id c = customer_id \<longrightarrow>
           (\<forall>s. name = Some s \<and> s \<noteq> [] \<longrightarrow> c_name c' = s) \<and>
           (\<forall>s. email = Some s \<and> s \<noteq> [] \<longrightarrow> c_email c' = s)))
     customers (modify_customer_loop customer_id name email customers)"
  by (induction customers)
     (auto simp: truthy_str_def Let_def split: option.splits)

text \<open>
  C9. \<open>modify_hotel\<close> and \<open>modify_customer\<close> keep the records in place, one for one.
  A record with another id is unchanged. In a record with the given id a field keeps
  its value when the argument is \<open>None\<close>, the empty string or (for the rooms) zero,
  and takes the argument otherwise. The other two files are not touched.
\<close>

theorem modify_only_truthy:
  "list_all2
     (\<lambda>h h'. h_hotel_id h' = h_hotel_id h \<and> h_reservations h' = h_reservations h \<and>
        (h_hotel_id h \<noteq> hotel_id \<longrightarrow> h' = h) \<and>
        (name = None \<or> name = Some [] \<longrightarrow> h_name h' = h_name h) \<and>
        (location = None \<or> location = Some [] \<longrightarrow> h_location h' = h_location h) \<and>
        (rooms = None \<or> rooms = Some 0 \<longrightarrow> h_rooms h' = h_rooms h) \<and>
        (h_hotel_id h = hotel_id \<longrightarrow>
           (\<forall>s. name = Some s \<and> s \<noteq> [] \<longrightarrow> h_name h' = s) \<and>
           (\<forall>s. location = Some s \<and> s \<noteq> [] \<longrightarrow> h_location h' = s) \<and>
           (\<forall>n. rooms = Some n \<and> n \<noteq> 0 \<longrightarrow> h_rooms h' = n)))
     (load_data (hotels_file st))
     (load_data (hotels_file (modify_hotel hotel_id name location rooms st))) \<and>
   customers_file (modify_hotel hotel_id name location rooms st) = customers_file st \<and>
   reservations_file (modify_hotel hotel_id name location rooms st) = reservations_file st \<and>
   list_all2
     (\<lambda>c c'. c_customer_id c' = c_customer_id c \<and>
        (c_customer_id c \<noteq> customer_id \<longrightarrow> c' = c) \<and>
        (name = None \<or> name = Some [] \<longrightarrow> c_name c' = c_name c) \<and>
        (email = None \<or> email = Some [] \<longrightarrow> c_email c' = c_email c) \<and>
        (c_customer_id c = customer_id \<longrightarrow>
           (\<forall>s. name = Some s \<and> s \<noteq> [] \<longrightarrow> c_name c' = s) \<and>
           (\<forall>s. email = Some s \<and> s \<noteq> [] \<longrightarrow> c_email c' = s)))
     (load_data (customers_file st))
     (load_data (customers_file (modify_customer customer_id name email st))) \<and>
   hotels_file (modify_customer customer_id name email st) = hotels_file st \<and>
   reservations_file (modify_customer customer_id name email st) = reservations_file st"
  using modify_hotel_loop_rel [of hotel_id name location rooms "load_data (hotels_file st)"]
    modify_customer_loop_rel [of customer_id name email "load_data (customers_file st)"]
  by (simp add: modify_hotel_def modify_customer_def save_data_def)

theorem modify_only_truthy_witness:
  "load_data (hotels_file (modify_hotel 1 (Some []) None (Some 0) twin_hotels)) =
     load_data (hotels_file twin_hotels) \<and>
   map h_name (load_data (hotels_file (modify_hotel 1 (Some (lit ''C'')) None None twin_hotels))) =
     [lit ''C'', lit ''C'']"
  using modify_only_truthy [of 1 "Some []" None "Some 0" twin_hotels 1]
  by (simp add: twin_hotels_def modify_hotel_def save_data_def truthy_str_def truthy_int_def
        lit_def)

section \<open>Properties of computeSales.py\<close>

lemma py_float_cases:
  "py_float F v = Inl e \<Longrightarrow> e = TypeError \<or> e = ValueError \<or> e = OverflowError"
  by (auto simp: py_float_def split: json.splits option.splits)

lemma sales_step_verdict:
  "sales_step F prices row (grouped, grand_total, error_count) =
     (case row_verdict F prices row of
        Rejected \<Rightarrow> Inr (grouped, grand_total, error_count + 1)
      | Accepted k d item \<Rightarrow>
          Inr (group_add F k d item grouped, grand_total + line_total item, error_count)
      | Raises e \<Rightarrow> Inl e)"
  by (simp add: sales_step_def row_verdict_def group_add_def Let_def
        split: json.splits option.splits sum.splits py_error.splits)

lemma sales_loop_append:
  "sales_loop F prices (xs @ ys) st =
     (case sales_loop F prices xs st of Inl e \<Rightarrow> Inl e | Inr st' \<Rightarrow> sales_loop F prices ys st')"
  by (induction xs arbitrary: st) (auto split: sum.splits)

lemma sales_step_one_more_error:
  "sales_step F prices row (one_more_error st) =
     map_sum id one_more_error (sales_step F prices row st)"
  by (cases st) (simp add: sales_step_verdict one_more_error_def split: verdict.splits)

lemma sales_loop_one_more_error:
  "sales_loop F prices rows (one_more_error st) =
     map_sum id one_more_error (sales_loop F prices rows st)"
proof (induction rows arbitrary: st)
  case Nil
  then show ?case by simp
next
  case (Cons row rows)
  show ?case
  proof (cases "sales_step F prices row st")
    case (Inl e)
    then show ?thesis by (simp add: sales_step_one_more_error)
  next
    case (Inr st')
    then show ?thesis using Cons [of st'] by (simp add: sales_step_one_more_error)
  qed
qed

lemma sales_loop_result:
  "sales_loop F prices rows (g, t, e) = Inr (g', t', e') \<Longrightarrow>
     g' = foldl (\<lambda>g (k, d, item). group_add F k d item g) g (accepted_rows F prices rows) \<and>
     t' = foldl (+) t (map (\<lambda>(k, d, item). line_total item) (accepted_rows F prices rows)) \<and>
     e' = e + length (filter (is_rejected F prices) rows)"
proof (induction rows arbitrary: g t e)
  case Nil
  then show ?case by simp
next
  case (Cons row rows)
  show ?case
  proof (cases "row_verdict F prices row")
    case Rejected
    then have "sales_loop F prices rows (g, t, e + 1) = Inr (g', t', e')"
      using Cons.prems by (simp add: sales_step_verdict)
    from Cons.IH [OF this] show ?thesis using Rejected by (simp add: is_rejected_def)
  next
    case (Accepted k d item)
    then have "sales_loop F prices rows (group_add F k d item g, t + line_total item, e)
                 = Inr (g', t', e')"
      using Cons.prems by (simp add: sales_step_verdict)
    from Cons.IH [OF this] show ?thesis using Accepted by (simp add: is_rejected_def)
  next
    case (Raises err)
    then show ?thesis using Cons.prems by (simp add: sales_step_verdict)
  qed
qed

lemma sales_loop_returns:
  "\<forall>r \<in> set rows. \<not> raises F prices r \<Longrightarrow>
     \<exists>res. sales_loop F prices rows (g, t, e) = Inr res"
proof (induction rows arbitrary: g t e)
  case Nil
  then show ?case by simp
next
  case (Cons row rows)
  from Cons.prems have nr: "\<not> raises F prices row" and rest: "\<forall>r \<in> set rows. \<not> raises F prices r"
    by simp_all
  show ?case
  proof (cases "row_verdict F prices row")
    case Rejected
    then show ?thesis using Cons.IH [OF rest, of g t "e + 1"] by (simp add: sales_step_verdict)
  next
    case (Accepted k d item)
    then show ?thesis
      using Cons.IH [OF rest, of "group_add F k d item g" "t + line_total item" e]
      by (simp add: sales_step_verdict)
  next
    case (Raises err)
    then show ?thesis using nr by (simp add: raises_def)
  qed
qed

lemma unknown_product_rejected:
  "\<not> known_product prices row \<Longrightarrow> row_verdict F prices row = Rejected"
  by (auto simp: known_product_def row_verdict_def split: json.splits)

lemma sales_loop_skip_rejected:
  assumes "row_verdict F prices row = Rejected"
  shows "sales_loop F prices (xs @ row # ys) st =
           map_sum id one_more_error (sales_loop F prices (xs @ ys) st)"
proof (cases "sales_loop F prices xs st")
  case (Inl e)
  then show ?thesis by (simp add: sales_loop_append)
next
  case (Inr st')
  obtain g t e where st': "st' = (g, t, e)" using prod_cases3 by blast
  have "sales_step F prices row st' = Inr (one_more_error st')"
    using assms by (simp add: st' sales_step_verdict one_more_error_def)
  then show ?thesis using Inr by (simp add: sales_loop_append sales_loop_one_more_error)
qed

lemma map_of_upd_group:
  "map_of (upd_group key f grouped) k =
     (if k = key then map_option f (map_of grouped k) else map_of grouped k)"
  by (induction grouped) (auto simp: upd_group_def)

lemma upd_group_keys: "map fst (upd_group key f grouped) = map fst grouped"
  by (induction grouped) (auto simp: upd_group_def)

lemma group_add_keys:
  "map fst (group_add F key d item grouped) =
     (if map_of grouped key = None then map fst grouped @ [key] else map fst grouped)"
  by (simp add: group_add_def upd_group_keys)

lemma group_add_distinct:
  "distinct (map fst grouped) \<Longrightarrow> distinct (map fst (group_add F key d item grouped))"
  by (auto simp: group_add_keys map_of_eq_None_iff)

lemma group_add_key_set:
  "fst ` set (group_add F key d item grouped) = insert key (fst ` set grouped)"
proof -
  have "set (map fst (group_add F key d item grouped)) = insert key (set (map fst grouped))"
    unfolding group_add_keys by (auto simp: map_of_eq_None_iff)
  then show ?thesis by simp
qed

lemma group_items_add:
  "group_items (group_add F key d item grouped) k =
     (if k = key then group_items grouped k @ [item] else group_items grouped k)"
  by (auto simp: group_items_def group_add_def map_of_upd_group split: option.splits)

lemma group_items_Nil: "group_items [] k = []"
  by (simp add: group_items_def)

lemma foldl_group_add_items:
  "group_items (foldl (\<lambda>g (k, d, item). group_add F k d item g) grouped acc) k =
     group_items grouped k @ map (\<lambda>(k, d, item). item) (filter (\<lambda>(k', d, item). k' = k) acc)"
  by (induction acc arbitrary: grouped) (auto simp: group_items_add)

lemma foldl_group_add_distinct:
  "distinct (map fst grouped) \<Longrightarrow>
     distinct (map fst (foldl (\<lambda>g (k, d, item). group_add F k d item g) grouped acc))"
  by (induction acc arbitrary: grouped) (auto simp: group_add_distinct)

lemma foldl_group_add_key_set:
  "fst ` set (foldl (\<lambda>g (k, d, item). group_add F k d item g) grouped acc) =
     fst ` set grouped \<union> fst ` set acc"
proof (induction acc arbitrary: grouped)
  case Nil
  then show ?case by simp
next
  case (Cons a acc)
  obtain k d item where a: "a = (k, d, item)" using prod_cases3 by blast
  have "fst ` set (foldl (\<lambda>g (k, d, item). group_add F k d item g) grouped (a # acc)) =
          fst ` set (group_add F k d item grouped) \<union> fst ` set acc"
    using Cons [of "group_add F k d item grouped"] by (simp add: a)
  also have "\<dots> = fst ` set grouped \<union> fst ` set (a # acc)"
    unfolding group_add_key_set by (simp add: a)
  finally show ?case .
qed


lemmas demo_eval =
  parse_sales_def sales_step_verdict row_verdict_def dict_get_def dict_get_default_def
  lit_def py_strip_def py_isspace_def py_float_def demo_runtime_def py_str_def str_int_def
  dec_digits.simps group_add_def upd_group_def truthy_def line_total_def demo_prices_def
  sale_row_def demo_rows_def is_rejected_def

lemma demo_parse:
  "parse_sales demo_runtime (JList demo_rows) demo_prices =
     Inr ([(lit ''1'', \<lparr>sg_sale_id = lit ''1'', sg_sale_date = lit ''2024-01-04'',
              sg_items = [\<lparr>si_product = lit ''Pen'', si_quantity = 3, si_unit_price = 2\<rparr>,
                          \<lparr>si_product = lit ''Pen'', si_quantity = 1, si_unit_price = 2\<rparr>,
                          \<lparr>si_product = lit ''Pen'', si_quantity = 1, si_unit_price = 2\<rparr>]\<rparr>),
           (lit ''2'', \<lparr>sg_sale_id = lit ''2'', sg_sale_date = lit ''2024-01-02'',
              sg_items = [\<lparr>si_product = lit ''Pen'', si_quantity = 2, si_unit_price = 2\<rparr>]\<rparr>)],
          14, 2)"
  by (simp add: demo_eval)


text \<open>
  C1. For every catalogue and list of sales rows: when \<open>parse_sales\<close> returns, the
  grand total is the sum, from the left, of quantity times unit price over exactly the
  accepted rows, the error count is the number of rejected rows, and the line items of
  each group are those of the accepted rows with its key, in input order. It returns
  whenever no row makes \<open>float()\<close> raise an exception that the loop does not catch.
  A row whose \<open>Product\<close> is no key of the catalogue is rejected: with it in the list,
  the result is the result without it, the error count one higher, so the row adds
  nothing to any group, subtotal or the grand total.
\<close>

theorem parse_sales_totals:
  "(parse_sales F (JList rows) prices = Inr (grouped, grand_total, error_count) \<longrightarrow>
      grand_total =
        foldl (+) 0 (map (\<lambda>(k, d, item). si_quantity item * si_unit_price item)
                       (accepted_rows F prices rows)) \<and>
      error_count = length (filter (is_rejected F prices) rows) \<and>
      distinct (map fst grouped) \<and>
      fst ` set grouped = fst ` set (accepted_rows F prices rows) \<and>
      (\<forall>k. group_items grouped k =
             map (\<lambda>(k, d, item). item)
               (filter (\<lambda>(k', d, item). k' = k) (accepted_rows F prices rows)))) \<and>
   ((\<forall>r \<in> set rows. \<not> raises F prices r) \<longrightarrow>
      (\<exists>res. parse_sales F (JList rows) prices = Inr res)) \<and>
   (\<not> known_product prices row \<longrightarrow>
      is_rejected F prices row \<and>
      parse_sales F (JList (xs @ row # ys)) prices =
        map_sum id one_more_error (parse_sales F (JList (xs @ ys)) prices))"
proof -
  let ?acc = "accepted_rows F prices rows"
  have 1: "grand_total =
        foldl (+) 0 (map (\<lambda>(k, d, item). si_quantity item * si_unit_price item) ?acc) \<and>
      error_count = length (filter (is_rejected F prices) rows) \<and>
      distinct (map fst grouped) \<and>
      fst ` set grouped = fst ` set ?acc \<and>
      (\<forall>k. group_items grouped k =
             map (\<lambda>(k, d, item). item) (filter (\<lambda>(k', d, item). k' = k) ?acc))"
    if ret: "parse_sales F (JList rows) prices = Inr (grouped, grand_total, error_count)"
  proof -
    from ret have "sales_loop F prices rows ([], 0, 0) = Inr (grouped, grand_total, error_count)"
      by (simp add: parse_sales_def)
    from sales_loop_result [OF this]
    have g: "grouped = foldl (\<lambda>g (k, d, item). group_add F k d item g) [] ?acc"
      and t: "grand_total = foldl (+) 0 (map (\<lambda>(k, d, item). line_total item) ?acc)"
      and e: "error_count = length (filter (is_rejected F prices) rows)"
      by simp_all
    have lt: "(\<lambda>(k, d, item). line_total item) =
                (\<lambda>(k, d, item). si_quantity item * si_unit_price (item :: 'a sale_item))"
      by (simp add: line_total_def)
    have "distinct (map fst grouped)"
      unfolding g by (rule foldl_group_add_distinct) simp
    moreover have "fst ` set grouped = fst ` set ?acc"
      unfolding g by (simp add: foldl_group_add_key_set)
    moreover have "\<forall>k. group_items grouped k =
             map (\<lambda>(k, d, item). item) (filter (\<lambda>(k', d, item). k' = k) ?acc)"
      unfolding g by (simp add: foldl_group_add_items group_items_Nil)
    ultimately show ?thesis using t e unfolding lt by simp
  qed
  have 2: "\<exists>res. parse_sales F (JList rows) prices = Inr res"
    if "\<forall>r \<in> set rows. \<not> raises F prices r"
    using sales_loop_returns [OF that] by (simp add: parse_sales_def)
  have 3: "is_rejected F prices row \<and>
      parse_sales F (JList (xs @ row # ys)) prices =
        map_sum id one_more_error (parse_sales F (JList (xs @ ys)) prices)"
    if "\<not> known_product prices row"
  proof -
    have r: "row_verdict F prices row = Rejected"
      using that by (rule unknown_product_rejected)
    then show ?thesis
      using sales_loop_skip_rejected [OF r] by (simp add: parse_sales_def is_rejected_def)
  qed
  from 1 2 3 show ?thesis by blast
qed

text \<open>The example rows: two rows are rejected (an unknown product, a quantity that is
  no number), and the other four add up to \<open>3 * 2 + 2 * 2 + 1 * 2 + 1 * 2\<close>.\<close>

theorem parse_sales_totals_witness:
  "(\<exists>grouped. parse_sales demo_runtime (JList demo_rows) demo_prices = Inr (grouped, 14, 2)) \<and>
   foldl (+) 0 (map (\<lambda>(k, d, item). si_quantity item * si_unit_price item)
                  (accepted_rows demo_runtime demo_prices demo_rows)) = 14 \<and>
   length (filter (is_rejected demo_runtime demo_prices) demo_rows) = 2 \<and>
   is_rejected demo_runtime demo_prices (demo_rows ! 1)"
proof -
  obtain grouped where
    ev: "parse_sales demo_runtime (JList demo_rows) demo_prices = Inr (grouped, 14, 2)"
    using demo_parse by blast
  have nk: "\<not> known_product demo_prices (demo_rows ! 1)"
    by (simp add: known_product_def demo_eval)
  from parse_sales_totals
    [of demo_runtime demo_rows demo_prices grouped 14 2 "demo_rows ! 1" "[]" "[]"] ev nk
  have "14 = foldl (+) 0 (map (\<lambda>(k, d, item). si_quantity item * si_unit_price item)
                  (accepted_rows demo_runtime demo_prices demo_rows))"
    and "2 = length (filter (is_rejected demo_runtime demo_prices) demo_rows)"
    and "is_rejected demo_runtime demo_prices (demo_rows ! 1)"
    by blast+
  with ev show ?thesis by auto
qed










end
